theory Spec2Isabelle
  imports Main "HOL-Library.Sublist"
begin

section \<open>Python string primitives used by trace\_icons.py\<close>

text \<open>
  Python's \<^verbatim>\<open>sub in s\<close>: \<open>sub\<close> occurs in \<open>s\<close> as a contiguous block.
\<close>

fun contains :: "string \<Rightarrow> string \<Rightarrow> bool" where
  "contains sub [] = (sub = [])"
| "contains sub (c # cs) = (prefix sub (c # cs) \<or> contains sub cs)"

text \<open>
  \<^verbatim>\<open>s.find(sub)\<close>: the lowest index at which \<open>sub\<close> starts in \<open>s\<close>, and \<open>-1\<close> when it
  does not occur.
\<close>

fun str_find :: "string \<Rightarrow> string \<Rightarrow> int" where
  "str_find [] sub = (if sub = [] then 0 else - 1)"
| "str_find (c # cs) sub =
     (if prefix sub (c # cs) then 0
      else (let r = str_find cs sub in if r = - 1 then - 1 else r + 1))"

text \<open>
  \<^verbatim>\<open>s.rfind(sub)\<close>: the highest index at which \<open>sub\<close> starts in \<open>s\<close>, and \<open>-1\<close> when it
  does not occur.
\<close>

fun str_rfind :: "string \<Rightarrow> string \<Rightarrow> int" where
  "str_rfind [] sub = (if sub = [] then 0 else - 1)"
| "str_rfind (c # cs) sub =
     (let r = str_rfind cs sub in
      if r \<noteq> - 1 then r + 1 else if prefix sub (c # cs) then 0 else - 1)"

text \<open>
  \<^verbatim>\<open>s.replace(old, new)\<close>: the occurrences of \<open>old\<close> are found from the left, they do
  not overlap, and each is replaced by \<open>new\<close>. For an empty \<open>old\<close> Python puts \<open>new\<close>
  before every character and at the end.
\<close>

function replace :: "string \<Rightarrow> string \<Rightarrow> string \<Rightarrow> string" where
  "replace old new [] = (if old = [] then new else [])"
| "replace old new (c # cs) =
     (if old = [] then new @ c # replace old new cs
      else if prefix old (c # cs) then new @ replace old new (drop (length old) (c # cs))
      else c # replace old new cs)"
  by pat_completeness auto
termination
  by (relation "measure (\<lambda>(old, new, s). length s)") auto

section \<open>Naming rules\<close>

text \<open>\<^verbatim>\<open>get_flags(name)\<close>, lines 28-47: the first matching substring decides.\<close>

definition get_flags :: "string \<Rightarrow> int" where
  "get_flags name =
     (if contains ''@2x.'' name then 1
      else if contains ''@2x_dark'' name then 4
      else if contains ''_dark'' name then 2
      else if contains ''_stroke'' name then 8
      else 0)"

text \<open>
  \<^verbatim>\<open>normalize_name(name)\<close>, lines 50-63: the loop over the three targets removes
  each in turn from the running result, then every dash becomes an underscore.
\<close>

definition normalize_name :: "string \<Rightarrow> string" where
  "normalize_name name =
     replace ''-'' ''_''
       (foldl (\<lambda>result target. replace target '''' result) name
          [''_dark'', ''_stroke'', ''@2x''])"

section \<open>Flag derivation\<close>

text \<open>
  C9. Flag precedence: a filename that contains \<^verbatim>\<open>@2x.\<close> gets flag 1, whatever
  other variant markers it contains.
\<close>

theorem get_flags_2x_dot: "contains ''@2x.'' name \<Longrightarrow> get_flags name = 1"
  by (simp add: get_flags_def)

theorem get_flags_2x_dot_witness:
  "contains ''@2x.'' ''run@2x_dark_stroke@2x.png''
   \<and> get_flags ''run@2x_dark_stroke@2x.png'' = 1"
proof -
  have h: "contains ''@2x.'' ''run@2x_dark_stroke@2x.png''" by simp
  show ?thesis using h get_flags_2x_dot [OF h] by simp
qed

text \<open>
  C1, as stated, fails: the branch returning 4 is reached by a filename that contains
  \<^verbatim>\<open>@2x_dark\<close> and no \<^verbatim>\<open>@2x.\<close>, such as \<^verbatim>\<open>icon@2x_dark.svg\<close>.
\<close>

theorem get_flags_2x_dark_counterexample:
  "contains ''@2x_dark'' ''icon@2x_dark.svg'' \<and> get_flags ''icon@2x_dark.svg'' = 4
   \<and> get_flags ''icon@2x_dark.svg'' \<noteq> 1"
  by (simp add: get_flags_def)

text \<open>
  C1, amended. A filename that contains \<^verbatim>\<open>@2x_dark\<close> gets flag 1 when it also
  contains \<^verbatim>\<open>@2x.\<close>, and flag 4 otherwise.
\<close>

theorem get_flags_2x_dark:
  "contains ''@2x_dark'' name \<Longrightarrow>
     get_flags name = (if contains ''@2x.'' name then 1 else 4)"
  by (simp add: get_flags_def)

theorem get_flags_2x_dark_witness:
  "contains ''@2x_dark'' ''icon@2x_dark.svg'' \<and> \<not> contains ''@2x.'' ''icon@2x_dark.svg''
   \<and> get_flags ''icon@2x_dark.svg'' = 4"
proof -
  have h: "contains ''@2x_dark'' ''icon@2x_dark.svg''" by simp
  show ?thesis using h get_flags_2x_dark [OF h] by simp
qed

section \<open>Name normalisation\<close>

lemma replace_absent: "old \<noteq> [] \<Longrightarrow> \<not> contains old s \<Longrightarrow> replace old new s = s"
  by (induction s) auto

lemma length_replace_le: "length (replace old [] s) \<le> length s"
proof (induction old "[]::string" s rule: replace.induct)
  case (1 old)
  then show ?case by simp
next
  case (2 old c cs)
  then show ?case by (auto simp: le_SucI)
qed

lemma length_replace_less:
  "old \<noteq> [] \<Longrightarrow> contains old s \<Longrightarrow> length (replace old [] s) < length s"
proof (induction s)
  case Nil
  then show ?case by simp
next
  case (Cons c cs)
  show ?case
  proof (cases "prefix old (c # cs)")
    case True
    have "length (replace old [] (drop (length old) (c # cs)))
            \<le> length (drop (length old) (c # cs))"
      by (rule length_replace_le)
    also have "\<dots> < length (c # cs)"
      using Cons.prems(1) by (cases old) auto
    finally show ?thesis
      using True Cons.prems(1) by simp
  next
    case False
    then show ?thesis using Cons by auto
  qed
qed

lemma replace_char: "replace [a] [b] s = map (\<lambda>x. if x = a then b else x) s"
  by (induction s) (auto simp: drop_Cons')

lemma map_swap_char_id: "a \<noteq> b \<Longrightarrow> map (\<lambda>x. if x = a then b else x) s = s \<longleftrightarrow> a \<notin> set s"
  by (induction s) auto

lemma normalize_name_unfold:
  "normalize_name t =
     map (\<lambda>x. if x = CHR ''-'' then CHR ''_'' else x)
       (replace ''@2x'' '''' (replace ''_stroke'' '''' (replace ''_dark'' '''' t)))"
  by (simp add: normalize_name_def replace_char)

lemma normalize_name_no_dash: "CHR ''-'' \<notin> set (normalize_name s)"
  by (auto simp: normalize_name_unfold)

text \<open>The names that normalisation leaves alone are those with nothing to remove.\<close>

lemma normalize_name_fixed:
  "normalize_name t = t \<longleftrightarrow>
     \<not> contains ''_dark'' t \<and> \<not> contains ''_stroke'' t \<and> \<not> contains ''@2x'' t
     \<and> CHR ''-'' \<notin> set t"
proof
  assume fx: "normalize_name t = t"
  define a where "a = replace ''_dark'' '''' t"
  define b where "b = replace ''_stroke'' '''' a"
  define c where "c = replace ''@2x'' '''' b"
  have la: "length a \<le> length t" and lb: "length b \<le> length a" and lc: "length c \<le> length b"
    unfolding a_def b_def c_def by (rule length_replace_le)+
  have n: "normalize_name t = map (\<lambda>x. if x = CHR ''-'' then CHR ''_'' else x) c"
    by (simp add: normalize_name_unfold a_def b_def c_def)
  have "length (normalize_name t) = length c"
    by (simp add: n)
  with fx have lt: "length c = length t" by simp
  have d: "\<not> contains ''_dark'' t"
  proof
    assume "contains ''_dark'' t"
    then have "length a < length t"
      unfolding a_def by (intro length_replace_less) simp_all
    with lb lc lt show False by simp
  qed
  then have at: "a = t"
    unfolding a_def by (intro replace_absent) simp_all
  have s: "\<not> contains ''_stroke'' t"
  proof
    assume "contains ''_stroke'' t"
    then have "length b < length a"
      unfolding b_def at by (intro length_replace_less) simp_all
    with la lc lt show False by simp
  qed
  then have bt: "b = t"
    unfolding b_def at by (intro replace_absent) simp_all
  have x: "\<not> contains ''@2x'' t"
  proof
    assume "contains ''@2x'' t"
    then have "length c < length b"
      unfolding c_def bt by (intro length_replace_less) simp_all
    with la lb lt show False by simp
  qed
  then have ct: "c = t"
    unfolding c_def bt by (intro replace_absent) simp_all
  from fx n ct have "map (\<lambda>x. if x = CHR ''-'' then CHR ''_'' else x) t = t"
    by simp
  then have "CHR ''-'' \<notin> set t"
    by (simp add: map_swap_char_id)
  with d s x show "\<not> contains ''_dark'' t \<and> \<not> contains ''_stroke'' t \<and> \<not> contains ''@2x'' t
     \<and> CHR ''-'' \<notin> set t"
    by simp
next
  assume h: "\<not> contains ''_dark'' t \<and> \<not> contains ''_stroke'' t \<and> \<not> contains ''@2x'' t
     \<and> CHR ''-'' \<notin> set t"
  then have "replace ''@2x'' '''' (replace ''_stroke'' '''' (replace ''_dark'' '''' t)) = t"
    by (simp add: replace_absent)
  with h show "normalize_name t = t"
    by (simp add: normalize_name_unfold map_swap_char_id)
qed

text \<open>
  C2, as stated, fails. Replacing the dash last can build a target that was not there
  (\<^verbatim>\<open>-dark\<close> becomes \<^verbatim>\<open>_dark\<close>), and removing a target can join the two halves of
  another occurrence (\<^verbatim>\<open>_da_darkrk\<close> becomes \<^verbatim>\<open>_dark\<close>); a second normalisation
  then removes what the first one produced.
\<close>

theorem normalize_name_idempotent_counterexample:
  "normalize_name ''-dark'' = ''_dark''
   \<and> normalize_name (normalize_name ''-dark'') = ''''
   \<and> normalize_name (normalize_name ''-dark'') \<noteq> normalize_name ''-dark''
   \<and> normalize_name (normalize_name ''_da_darkrk'') \<noteq> normalize_name ''_da_darkrk''"
  by (simp add: normalize_name_def)

text \<open>
  C2, amended. Normalising a normalised name returns it unchanged exactly when the
  normalised name contains none of the substrings \<^verbatim>\<open>_dark\<close>, \<^verbatim>\<open>_stroke\<close>, \<^verbatim>\<open>@2x\<close>.
\<close>

theorem normalize_name_idempotent_iff:
  "normalize_name (normalize_name s) = normalize_name s \<longleftrightarrow>
     \<not> contains ''_dark'' (normalize_name s)
     \<and> \<not> contains ''_stroke'' (normalize_name s)
     \<and> \<not> contains ''@2x'' (normalize_name s)"
  by (simp add: normalize_name_fixed normalize_name_no_dash)

theorem normalize_name_idempotent_iff_witness:
  "\<not> contains ''_dark'' (normalize_name ''my-icon_stroke'')
   \<and> \<not> contains ''_stroke'' (normalize_name ''my-icon_stroke'')
   \<and> \<not> contains ''@2x'' (normalize_name ''my-icon_stroke'')
   \<and> normalize_name (normalize_name ''my-icon_stroke'') = normalize_name ''my-icon_stroke''"
proof -
  have h: "\<not> contains ''_dark'' (normalize_name ''my-icon_stroke'')
     \<and> \<not> contains ''_stroke'' (normalize_name ''my-icon_stroke'')
     \<and> \<not> contains ''@2x'' (normalize_name ''my-icon_stroke'')"
    by (simp add: normalize_name_def)
  show ?thesis
    using h normalize_name_idempotent_iff [of "''my-icon_stroke''"] by blast
qed

end
